theory Spec2Isabelle
  imports Main "HOL-Library.AList" "HOL-Library.Multiset"
begin

section \<open>Python values exchanged over the JSON protocol\<close>

text \<open>
  \<^verbatim>\<open>scripts/eval_harness.py\<close> reads one line at a time, decodes it with
  \<^verbatim>\<open>json.loads\<close> and hands the decoded Python object to
  \<^verbatim>\<open>EvalHarness.handle_command\<close>. The decoder can return any of the seven kinds of
  Python object below, not only a \<^verbatim>\<open>dict\<close>.

  A \<open>string\<close> is a Python \<^verbatim>\<open>str\<close> whose code points are below 256, one \<open>char\<close> per
  code point. A \<^verbatim>\<open>float\<close> is kept as its \<^verbatim>\<open>repr\<close> text (\<open>''0.0''\<close>, \<open>''nan''\<close>),
  which is all the harness ever does with one: it formats it or passes it on. A
  \<^verbatim>\<open>dict\<close> is an association list in insertion order; its keys are always \<^verbatim>\<open>str\<close>.
\<close>

datatype json =
    JNull
  | JBool bool
  | JInt int
  | JFloat string
  | JStr string
  | JList "json list"
  | JDict "(string \<times> json) list"

text \<open>\<^verbatim>\<open>d.get(k, default)\<close>\<close>

definition dict_get :: "(string \<times> json) list \<Rightarrow> string \<Rightarrow> json \<Rightarrow> json" where
  "dict_get d k dflt = (case map_of d k of Some v \<Rightarrow> v | None \<Rightarrow> dflt)"

text \<open>
  \<^verbatim>\<open>x in some_dict\<close> hashes \<open>x\<close>; a \<^verbatim>\<open>list\<close> or a \<^verbatim>\<open>dict\<close> is unhashable and the test
  raises \<^verbatim>\<open>TypeError\<close>.
\<close>

fun hashable :: "json \<Rightarrow> bool" where
  "hashable (JList _) = False"
| "hashable (JDict _) = False"
| "hashable _ = True"

datatype py_error = AttributeError | TypeError | RecursionError | ValueError

subsection \<open>\<^verbatim>\<open>str\<close> and \<^verbatim>\<open>repr\<close>, as used by the f-strings of the error messages\<close>

function str_nat :: "nat \<Rightarrow> string" where
  "str_nat n = (if n < 10 then [char_of (48 + n)] else str_nat (n div 10) @ [char_of (48 + n mod 10)])"
  by pat_completeness auto
termination
  by (relation "measure id") auto

definition str_int :: "int \<Rightarrow> string" where
  "str_int i = (if i < 0 then CHR ''-'' # str_nat (nat (- i)) else str_nat (nat i))"

definition hex_digit :: "nat \<Rightarrow> char" where
  "hex_digit n = (if n < 10 then char_of (48 + n) else char_of (87 + n))"

text \<open>
  \<^verbatim>\<open>str.isprintable\<close> on the code points below 256: the C0 and C1 controls, DEL,
  the no-break space and the soft hyphen are not printable.
\<close>

definition printable :: "char \<Rightarrow> bool" where
  "printable c = (let n = (of_char c :: nat) in
     (32 \<le> n \<and> n < 127) \<or> (161 \<le> n \<and> n \<noteq> 173))"

definition repr_char :: "char \<Rightarrow> char \<Rightarrow> string" where
  "repr_char quote c =
     (if c = quote \<or> c = CHR 0x5C then [CHR 0x5C, c]
      else if c = CHR 0x09 then [CHR 0x5C, CHR ''t'']
      else if c = CHR 0x0A then [CHR 0x5C, CHR ''n'']
      else if c = CHR 0x0D then [CHR 0x5C, CHR ''r'']
      else if printable c then [c]
      else [CHR 0x5C, CHR ''x'', hex_digit (of_char c div 16), hex_digit (of_char c mod 16)])"

definition repr_str :: "string \<Rightarrow> string" where
  "repr_str s =
     (let quote = (if CHR 0x27 \<in> set s \<and> CHR 0x22 \<notin> set s then CHR 0x22 else CHR 0x27)
      in quote # concat (map (repr_char quote) s) @ [quote])"

fun join :: "string \<Rightarrow> string list \<Rightarrow> string" where
  "join sep [] = []"
| "join sep [x] = x"
| "join sep (x # y # ys) = x @ sep @ join sep (y # ys)"

primrec py_repr :: "json \<Rightarrow> string"
  and py_repr_list :: "json list \<Rightarrow> string list"
  and py_repr_items :: "(string \<times> json) list \<Rightarrow> string list"
  and py_repr_item :: "string \<times> json \<Rightarrow> string"
where
  "py_repr JNull = ''None''"
| "py_repr (JBool b) = (if b then ''True'' else ''False'')"
| "py_repr (JInt i) = str_int i"
| "py_repr (JFloat r) = r"
| "py_repr (JStr s) = repr_str s"
| "py_repr (JList xs) = ''['' @ join '', '' (py_repr_list xs) @ '']''"
| "py_repr (JDict kvs) = ''{'' @ join '', '' (py_repr_items kvs) @ ''}''"
| "py_repr_list [] = []"
| "py_repr_list (x # xs) = py_repr x # py_repr_list xs"
| "py_repr_items [] = []"
| "py_repr_items (kv # kvs) = py_repr_item kv # py_repr_items kvs"
| "py_repr_item (k, v) = repr_str k @ '': '' @ py_repr v"

definition py_str :: "json \<Rightarrow> string" where
  "py_str v = (case v of JStr s \<Rightarrow> s | _ \<Rightarrow> py_repr v)"

section \<open>The engine the harness drives\<close>

text \<open>
  Modelled from the spec: the package \<^verbatim>\<open>baba.envs\<close>, from which the harness imports
  \<^verbatim>\<open>ENVIRONMENTS\<close> and \<^verbatim>\<open>create_environment\<close>, is not among the sources. It is
  taken as a parameter:
  \<^item> \<open>ENVIRONMENTS\<close> is the registry, a \<^verbatim>\<open>dict\<close> from level name to environment class
    (section 4.4: ``a named registry maps level identifiers to layout constructors'');
  \<^item> \<open>class_difficulty\<close> is the class attribute \<^verbatim>\<open>difficulty\<close>, ``a plain integer
    annotation'', \<open>None\<close> when the class does not define it;
  \<^item> \<open>create_environment\<close> builds the environment object of a registered name;
  \<^item> \<open>env_reset\<close>, \<open>env_step\<close> and \<open>env_to_dict\<close> are the methods of that object.
    The object is mutable and the harness holds the only reference to it, so each
    method takes the object's state \<open>'e\<close> and returns the state it leaves behind.
    \<open>env_step\<close> returns the tuple \<^verbatim>\<open>(obs, reward, done, info)\<close>.
  The methods return normally (section 5: ``a step call runs to completion before
  returning'') and what they return is serialisable.
\<close>

record ('c, 'e, 'o) baba =
  ENVIRONMENTS :: "(string \<times> 'c) list"
  class_difficulty :: "'c \<Rightarrow> int option"
  create_environment :: "json \<Rightarrow> 'e"
  env_reset :: "'e \<Rightarrow> 'e"
  env_step :: "'e \<Rightarrow> json \<Rightarrow> ('o \<times> json \<times> json \<times> json) \<times> 'e"
  env_to_dict :: "'e \<Rightarrow> json \<times> 'e"

text \<open>The calls the harness makes into the engine, in the order it makes them.\<close>

datatype call = Create json | Reset | Step json | ToDict

section \<open>\<^verbatim>\<open>EvalHarness\<close>\<close>

text \<open>
  \<^verbatim>\<open>self.env\<close> is \<open>None\<close> or the environment object; \<^verbatim>\<open>self.env_name\<close> is Python's
  \<^verbatim>\<open>None\<close> (\<open>JNull\<close>) or the name given to the last successful reset.
\<close>

record 'e harness =
  env :: "'e option"
  env_name :: json

definition init :: "'e harness" where
  "init = \<lparr>env = None, env_name = JNull\<rparr>"

definition valid_actions :: "string list" where
  "valid_actions = [''up'', ''down'', ''left'', ''right'', ''wait'']"

text \<open>
  The loop of the \<^verbatim>\<open>list_envs\<close> branch:
  \<^verbatim>\<open>envs_with_difficulty[name] = {"difficulty": getattr(env_class, "difficulty", 1)}\<close>
  for every item of the registry.
\<close>

definition difficulty_entry :: "('c, 'e, 'o) baba \<Rightarrow> 'c \<Rightarrow> json" where
  "difficulty_entry B env_class =
     JDict [(''difficulty'', JInt (case class_difficulty B env_class of Some d \<Rightarrow> d | None \<Rightarrow> 1))]"

fun envs_loop :: "('c, 'e, 'o) baba \<Rightarrow> (string \<times> json) list \<Rightarrow> (string \<times> 'c) list \<Rightarrow> (string \<times> json) list" where
  "envs_loop B envs_with_difficulty [] = envs_with_difficulty"
| "envs_loop B envs_with_difficulty ((name, env_class) # items) =
     envs_loop B (AList.update name (difficulty_entry B env_class) envs_with_difficulty) items"

text \<open>
  \<^verbatim>\<open>handle_command(self, cmd_data)\<close>. The result is \<open>Inl\<close> the exception that leaves the
  method, or \<open>Inr\<close> the response, the harness afterwards and the engine calls made.
  \<^verbatim>\<open>cmd_data.get\<close> exists only on a \<^verbatim>\<open>dict\<close>: on any other object the first line of
  the method raises \<^verbatim>\<open>AttributeError\<close>.
\<close>

fun handle_command ::
  "('c, 'e, 'o) baba \<Rightarrow> 'e harness \<Rightarrow> json \<Rightarrow> py_error + (json \<times> 'e harness \<times> call list)" where
  "handle_command B self (JDict cmd_data) =
    (let cmd = dict_get cmd_data ''cmd'' (JStr '''') in
     if cmd = JStr ''list_envs'' then
       Inr (JDict [(''status'', JStr ''ok''),
                   (''envs'', JDict (envs_loop B [] (ENVIRONMENTS B)))], self, [])
     else if cmd = JStr ''reset'' then
       (let env_name' = dict_get cmd_data ''env'' (JStr ''simple'') in
        if \<not> hashable env_name' then Inl TypeError
        else if env_name' \<notin> JStr ` fst ` set (ENVIRONMENTS B) then
          Inr (JDict [(''status'', JStr ''error''),
                      (''message'', JStr (''Unknown environment: '' @ py_str env_name' @
                         ''. Use 'list_envs' to see available environments.''))], self, [])
        else
          (let e0 = create_environment B env_name';
               e1 = env_reset B e0;
               (observation, e2) = env_to_dict B e1
           in Inr (JDict [(''status'', JStr ''ok''),
                          (''env'', env_name'),
                          (''observation'', observation)],
                   \<lparr>env = Some e2, env_name = env_name'\<rparr>,
                   [Create env_name', Reset, ToDict])))
     else if cmd = JStr ''step'' then
       (case env self of
          None \<Rightarrow>
            Inr (JDict [(''status'', JStr ''error''),
                        (''message'', JStr ''No environment loaded. Use 'reset' first.'')], self, [])
        | Some e \<Rightarrow>
           (let action = dict_get cmd_data ''action'' (JStr ''wait'') in
            if action \<notin> JStr ` set valid_actions then
              Inr (JDict [(''status'', JStr ''error''),
                          (''message'', JStr (''Invalid action: '' @ py_str action @
                             ''. Valid actions: '' @ py_str (JList (map JStr valid_actions))))],
                   self, [])
            else
              (let ((obs, reward, done, info), e1) = env_step B e action;
                   (observation, e2) = env_to_dict B e1
               in Inr (JDict [(''status'', JStr ''ok''),
                              (''observation'', observation),
                              (''reward'', reward),
                              (''done'', done),
                              (''info'', info)],
                       self\<lparr>env := Some e2\<rparr>,
                       [Step action, ToDict]))))
     else if cmd = JStr ''info'' then
       (case env self of
          None \<Rightarrow>
            Inr (JDict [(''status'', JStr ''error''),
                        (''message'', JStr ''No environment loaded. Use 'reset' first.'')], self, [])
        | Some e \<Rightarrow>
           (let (observation, e1) = env_to_dict B e
            in Inr (JDict [(''status'', JStr ''ok''),
                           (''env'', env_name self),
                           (''observation'', observation)],
                    self\<lparr>env := Some e1\<rparr>,
                    [ToDict])))
     else if cmd = JStr ''quit'' then
       Inr (JDict [(''status'', JStr ''ok''), (''message'', JStr ''goodbye'')], self, [])
     else
       Inr (JDict [(''status'', JStr ''error''),
                   (''message'', JStr (''Unknown command: '' @ py_str cmd @
                      ''. Valid commands: list_envs, reset, step, info, quit''))], self, []))"
| "handle_command B self _ = Inl AttributeError"

text \<open>
  The objects \<^verbatim>\<open>handle_command\<close> returns a response for: a \<^verbatim>\<open>dict\<close>, and when the
  command is \<^verbatim>\<open>reset\<close> one whose \<^verbatim>\<open>env\<close> can be hashed.
\<close>

definition answerable :: "json \<Rightarrow> bool" where
  "answerable cmd_data =
     (case cmd_data of
        JDict d \<Rightarrow> dict_get d ''cmd'' (JStr '''') = JStr ''reset''
                     \<longrightarrow> hashable (dict_get d ''env'' (JStr ''simple''))
      | _ \<Rightarrow> False)"

section \<open>The command loop\<close>

text \<open>
  \<^verbatim>\<open>str.isspace\<close> on the code points below 256, and \<^verbatim>\<open>line.strip()\<close>.
\<close>

definition py_isspace :: "char \<Rightarrow> bool" where
  "py_isspace c = (let n = (of_char c :: nat) in
     (9 \<le> n \<and> n \<le> 13) \<or> (28 \<le> n \<and> n \<le> 32) \<or> n = 133 \<or> n = 160)"

definition strip :: "string \<Rightarrow> string" where
  "strip s = rev (dropWhile py_isspace (rev (dropWhile py_isspace s)))"

text \<open>
  What \<^verbatim>\<open>json.loads(line)\<close> does. It returns the decoded object; or it raises
  \<^verbatim>\<open>json.JSONDecodeError\<close>, and \<open>JSONDecodeError\<close> carries the text of the exception;
  or it raises another exception, which \<^verbatim>\<open>except json.JSONDecodeError\<close> does not catch:
  \<^verbatim>\<open>RecursionError\<close> on a document nested too deeply, \<^verbatim>\<open>ValueError\<close> on an integer
  literal with more digits than the interpreter converts. The decoder is not a
  validator of JSON: it also decodes \<^verbatim>\<open>NaN\<close>, \<^verbatim>\<open>Infinity\<close> and \<^verbatim>\<open>-Infinity\<close>, to
  floats.
\<close>

datatype loaded = Loaded json | JSONDecodeError string | LoadsRaised py_error

text \<open>
  How \<^verbatim>\<open>run\<close> ends: the lines of standard input are exhausted, the \<^verbatim>\<open>break\<close> after a
  \<^verbatim>\<open>quit\<close> command is taken, or an exception leaves the method (nothing in \<^verbatim>\<open>run\<close> or
  \<^verbatim>\<open>main\<close> catches it, so the process dies with a traceback).
\<close>

datatype ending = EndOfInput | Quit | Raised py_error

text \<open>\<^verbatim>\<open>print(json.dumps(response), flush=True)\<close>, followed by the rest of the run.\<close>

fun printed :: "json \<Rightarrow> json list \<times> 'e harness \<times> ending \<Rightarrow> json list \<times> 'e harness \<times> ending" where
  "printed response (out, self, e) = (response # out, self, e)"

text \<open>
  \<^verbatim>\<open>cmd_data.get("cmd") == "quit"\<close>, evaluated after \<^verbatim>\<open>handle_command\<close> has returned, so
  \<^verbatim>\<open>cmd_data\<close> is a \<^verbatim>\<open>dict\<close> there.
\<close>

definition is_quit :: "json \<Rightarrow> bool" where
  "is_quit cmd_data = (case cmd_data of JDict d \<Rightarrow> dict_get d ''cmd'' JNull = JStr ''quit'' | _ \<Rightarrow> False)"

text \<open>
  \<^verbatim>\<open>run(self)\<close> over the lines of standard input. \<^verbatim>\<open>json.loads\<close> belongs to the Python
  library and is the parameter \<open>loads\<close>, with the three outcomes above; the
  \<^verbatim>\<open>try\<close> around it catches \<^verbatim>\<open>json.JSONDecodeError\<close> only, so any other exception of
  the decoder leaves \<^verbatim>\<open>run\<close>. The result is what was printed (the responses, before
  \<^verbatim>\<open>json.dumps\<close>), the harness at the end and how the loop ended.
\<close>

fun run ::
  "(string \<Rightarrow> loaded) \<Rightarrow> ('c, 'e, 'o) baba \<Rightarrow> 'e harness \<Rightarrow> string list
     \<Rightarrow> json list \<times> 'e harness \<times> ending" where
  "run loads B self [] = ([], self, EndOfInput)"
| "run loads B self (line # stdin) =
    (let line' = strip line in
     if line' = [] then run loads B self stdin
     else
       (case loads line' of
          JSONDecodeError e \<Rightarrow>
            printed (JDict [(''status'', JStr ''error''),
                            (''message'', JStr (''Invalid JSON: '' @ e))])
                    (run loads B self stdin)
        | LoadsRaised err \<Rightarrow> ([], self, Raised err)
        | Loaded cmd_data \<Rightarrow>
           (case handle_command B self cmd_data of
              Inl err \<Rightarrow> ([], self, Raised err)
            | Inr (response, self', calls) \<Rightarrow>
                if is_quit cmd_data then ([response], self', Quit)
                else printed response (run loads B self' stdin))))"

section \<open>Reading a response\<close>

definition field :: "json \<Rightarrow> string \<Rightarrow> json option" where
  "field response k = (case response of JDict d \<Rightarrow> map_of d k | _ \<Rightarrow> None)"

definition is_error :: "json \<Rightarrow> bool" where
  "is_error response = (field response ''status'' = Some (JStr ''error''))"

definition is_ok :: "json \<Rightarrow> bool" where
  "is_ok response = (field response ''status'' = Some (JStr ''ok''))"

section \<open>A small engine and a small decoder, to run the harness on concrete input\<close>

text \<open>
  One registered level, \<open>simple\<close>, of difficulty 1; the environment's state is the
  number of steps taken since the reset, which is also all its observation shows.
\<close>

definition counter_observation :: "nat \<Rightarrow> json" where
  "counter_observation n = JDict [(''state'', JDict [(''steps'', JInt (int n))])]"

definition counter_engine :: "(unit, nat, unit) baba" where
  "counter_engine =
     \<lparr>ENVIRONMENTS = [(''simple'', ())],
      class_difficulty = (\<lambda>c. Some 1),
      create_environment = (\<lambda>name. 7),
      env_reset = (\<lambda>e. 0),
      env_step = (\<lambda>e action. (((), JFloat ''0.0'', JBool False, JDict []), Suc e)),
      env_to_dict = (\<lambda>e. (counter_observation e, e))\<rparr>"

text \<open>
  A decoder given by a table of lines and the objects \<^verbatim>\<open>json.loads\<close> returns for them;
  a line outside the table is taken to be rejected with a \<^verbatim>\<open>JSONDecodeError\<close>.
\<close>

definition table_loads :: "(string \<times> json) list \<Rightarrow> string \<Rightarrow> loaded" where
  "table_loads table line =
     (case map_of table line of
        Some v \<Rightarrow> Loaded v
      | None \<Rightarrow> JSONDecodeError ''Expecting value: line 1 column 1 (char 0)'')"

text \<open>
  Lines as they arrive on standard input, without their final newline, and a decoder
  that knows them: \<^verbatim>\<open>json.loads\<close> returns the integer 42 for \<^verbatim>\<open>42\<close>, the float
  \<^verbatim>\<open>nan\<close> for \<^verbatim>\<open>NaN\<close> and a \<^verbatim>\<open>dict\<close> for the other two.
\<close>

definition quit_line :: string where
  \<open>quit_line = ''{"cmd": "quit"}''\<close>

definition step_line :: string where
  \<open>step_line = ''{"cmd": "step", "action": "right"}''\<close>

definition sample_loads :: "string \<Rightarrow> loaded" where
  "sample_loads = table_loads
     [(''42'', JInt 42),
      (''NaN'', JFloat ''nan''),
      (quit_line, JDict [(''cmd'', JStr ''quit'')]),
      (step_line, JDict [(''cmd'', JStr ''step''), (''action'', JStr ''right'')])]"

section \<open>A session: successive calls of \<^verbatim>\<open>handle_command\<close> on one harness\<close>

text \<open>
  The commands are handled in order on the same \<^verbatim>\<open>EvalHarness\<close> object; an exception
  ends the session. The result pairs the responses, in order, with the harness after
  the last command.
\<close>

fun handle_all ::
  "('c, 'e, 'o) baba \<Rightarrow> 'e harness \<Rightarrow> json list \<Rightarrow> py_error + (json list \<times> 'e harness)" where
  "handle_all B self [] = Inr ([], self)"
| "handle_all B self (cmd_data # rest) =
     (case handle_command B self cmd_data of
        Inl err \<Rightarrow> Inl err
      | Inr (response, self', calls) \<Rightarrow>
         (case handle_all B self' rest of
            Inl err \<Rightarrow> Inl err
          | Inr (responses, self'') \<Rightarrow> Inr (response # responses, self'')))"

text \<open>A successful reset: a \<^verbatim>\<open>reset\<close> command that was answered with status \<^verbatim>\<open>ok\<close>.\<close>

definition reset_succeeded :: "json \<times> json \<Rightarrow> bool" where
  "reset_succeeded cr =
     (case cr of (cmd_data, response) \<Rightarrow>
        field cmd_data ''cmd'' = Some (JStr ''reset'') \<and> is_ok response)"

section \<open>Grids in memory\<close>

text \<open>
  Modelled from the spec: the classes \<^verbatim>\<open>Object\<close> and \<^verbatim>\<open>Grid\<close> of the package
  \<^verbatim>\<open>baba\<close> are not among the sources; only the tests that call \<^verbatim>\<open>Grid.copy\<close> and
  \<^verbatim>\<open>Grid.step\<close> are. Section 3 of the spec gives the data: an Object is an
  ``identity-independent record'' with \<^verbatim>\<open>name\<close>, \<^verbatim>\<open>x\<close>, \<^verbatim>\<open>y\<close>, \<^verbatim>\<open>is_text\<close> and an
  optional \<^verbatim>\<open>color\<close>; a Grid ``owns a width x height array where each cell is a
  collection of zero or more Objects'', with the counter \<^verbatim>\<open>steps\<close> and the flags
  \<^verbatim>\<open>won\<close> and \<^verbatim>\<open>lost\<close>, and ``owns all Objects exclusively''. The tests read a cell as
  \<^verbatim>\<open>grid.grid[y][x]\<close>, so the array is a list of rows.
\<close>

record Object =
  obj_name :: string
  obj_x :: nat
  obj_y :: nat
  is_text :: bool
  color :: "string option"

record Grid =
  width :: nat
  height :: nat
  grid :: "Object list list list"
  steps :: nat
  won :: bool
  lost :: bool

text \<open>
  A Python variable holds a reference to a Grid, and \<^verbatim>\<open>step\<close> mutates the Grid it is
  called on. The memory is the list of the Grids allocated so far; a reference is an
  index into it.
\<close>

type_synonym memory = "Grid list"

text \<open>
  Modelled from the spec: \<^verbatim>\<open>Grid.copy\<close>, section 4.1: ``produces a fully independent
  deep copy: identical object multiset per cell, identical steps/won/lost, no shared
  mutable storage''. The copy is a newly allocated Grid with the contents of the
  source; the reference to it is returned with the memory.
\<close>

definition Grid_copy :: "memory \<Rightarrow> nat \<Rightarrow> memory \<times> nat" where
  "Grid_copy mem self = (mem @ [mem ! self], length mem)"

text \<open>
  Modelled from the spec: \<^verbatim>\<open>Grid.step\<close>, section 4.3. Sub-steps 1 to 6 (rescan the
  rules, move the YOU objects and cascade the pushes, resolve the overlaps, rescan,
  check for a win or a loss) rewrite the cells and the flags of the Grid the method is
  called on; section 9 leaves part of them open, so they are the parameter \<open>resolve\<close>.
  Sub-step 7 is ``increment steps''.
\<close>

definition step_grid :: "(string \<Rightarrow> Grid \<Rightarrow> Grid) \<Rightarrow> string \<Rightarrow> Grid \<Rightarrow> Grid" where
  "step_grid resolve action g = (resolve action g)\<lparr>steps := steps g + 1\<rparr>"

definition Grid_step :: "(string \<Rightarrow> Grid \<Rightarrow> Grid) \<Rightarrow> memory \<Rightarrow> nat \<Rightarrow> string \<Rightarrow> memory" where
  "Grid_step resolve mem self action = mem[self := step_grid resolve action (mem ! self)]"

text \<open>Successive calls of \<^verbatim>\<open>step\<close> on the same Grid, one for each action.\<close>

fun Grid_steps :: "(string \<Rightarrow> Grid \<Rightarrow> Grid) \<Rightarrow> memory \<Rightarrow> nat \<Rightarrow> string list \<Rightarrow> memory" where
  "Grid_steps resolve mem self [] = mem"
| "Grid_steps resolve mem self (action # actions) =
     Grid_steps resolve (Grid_step resolve mem self action) self actions"

text \<open>The names of the objects of the cell \<^verbatim>\<open>grid.grid[y][x]\<close>, as a multiset.\<close>

definition cell_names :: "Grid \<Rightarrow> nat \<Rightarrow> nat \<Rightarrow> string multiset" where
  "cell_names g cx cy = mset (map obj_name (grid g ! cy ! cx))"

text \<open>A Grid of one row and three cells, with Baba on the left and the flag on the right.\<close>

definition tiny_grid :: Grid where
  "tiny_grid =
     \<lparr>width = 3, height = 1,
      grid = [[[\<lparr>obj_name = ''baba'', obj_x = 0, obj_y = 0, is_text = False, color = None\<rparr>],
               [],
               [\<lparr>obj_name = ''flag'', obj_x = 2, obj_y = 0, is_text = False, color = None\<rparr>]]],
      steps = 2, won = False, lost = False\<rparr>"

text \<open>A resolver that empties every cell.\<close>

definition clear_cells :: "string \<Rightarrow> Grid \<Rightarrow> Grid" where
  "clear_cells action g = g\<lparr>grid := map (map (\<lambda>cell. [])) (grid g)\<rparr>"

section \<open>Dictionaries\<close>

lemma dict_get_append_other:
  "k \<noteq> k' \<Longrightarrow> dict_get (d @ [(k', v)]) k dflt = dict_get d k dflt"
  by (simp add: dict_get_def map_add_def split: option.splits)

lemma dict_get_append_absent:
  "map_of d k = None \<Longrightarrow> dict_get (d @ [(k, v)]) k dflt = v"
  by (simp add: dict_get_def map_add_def)

lemma dict_get_absent: "map_of d k = None \<Longrightarrow> dict_get d k dflt = dflt"
  by (simp add: dict_get_def)

lemma dict_get_present: "map_of d k = Some v \<Longrightarrow> dict_get d k dflt = v"
  by (simp add: dict_get_def)

section \<open>The registry listing\<close>

lemma envs_loop_keys:
  "fst ` set (envs_loop B acc items) = fst ` set acc \<union> fst ` set items"
proof (induction items arbitrary: acc)
  case Nil
  then show ?case by simp
next
  case (Cons item items)
  obtain name env_class where item: "item = (name, env_class)" by (cases item)
  show ?case
    unfolding item envs_loop.simps Cons.IH AList.dom_update by auto
qed

lemma envs_loop_distinct:
  "distinct (map fst acc) \<Longrightarrow> distinct (map fst (envs_loop B acc items))"
  by (induction items arbitrary: acc) (auto simp: AList.distinct_update)

lemma envs_loop_values:
  "(\<And>k v. map_of acc k = Some v \<Longrightarrow> \<exists>d. v = JDict [(''difficulty'', JInt d)])
   \<Longrightarrow> map_of (envs_loop B acc items) k = Some v \<Longrightarrow> \<exists>d. v = JDict [(''difficulty'', JInt d)]"
proof (induction items arbitrary: acc)
  case Nil
  then show ?case by simp
next
  case (Cons item items)
  obtain name env_class where item: "item = (name, env_class)" by (cases item)
  have "\<And>k v. map_of (AList.update name (difficulty_entry B env_class) acc) k = Some v
          \<Longrightarrow> \<exists>d. v = JDict [(''difficulty'', JInt d)]"
    using Cons.prems(1) by (auto simp: AList.update_conv' difficulty_entry_def split: if_splits)
  then show ?case using Cons.IH Cons.prems(2) item by simp blast
qed

lemma update_fresh:
  "k \<notin> fst ` set al \<Longrightarrow> AList.update k v al = al @ [(k, v)]"
  by (induction al) auto

lemma envs_loop_distinct_registry:
  assumes "distinct (map fst items)" and "fst ` set acc \<inter> fst ` set items = {}"
  shows "envs_loop B acc items = acc @ map (\<lambda>(name, env_class). (name, difficulty_entry B env_class)) items"
  using assms
proof (induction items arbitrary: acc)
  case Nil
  then show ?case by simp
next
  case (Cons item items)
  obtain name env_class where item: "item = (name, env_class)" by (cases item)
  from Cons.prems item have fresh: "name \<notin> fst ` set acc" by auto
  from Cons.prems item have d: "distinct (map fst items)" by simp
  from Cons.prems item have
    disj: "fst ` set (acc @ [(name, difficulty_entry B env_class)]) \<inter> fst ` set items = {}"
    by auto
  show ?case
    unfolding item envs_loop.simps update_fresh[OF fresh] Cons.IH[OF d disj] by simp
qed

section \<open>What \<^verbatim>\<open>handle_command\<close> answers\<close>

lemmas run_defs = dict_get_def counter_engine_def counter_observation_def init_def Let_def
  valid_actions_def is_error_def is_ok_def field_def difficulty_entry_def py_str_def

text \<open>
  Claim C6. A \<^verbatim>\<open>list_envs\<close> command is answered with status \<^verbatim>\<open>ok\<close> and a mapping
  \<^verbatim>\<open>envs\<close> whose keys are exactly the names of the registry, each once, and whose value
  for every name is an object with an integer field \<^verbatim>\<open>difficulty\<close>. The harness is
  left as it was and the engine is not called.
\<close>

theorem list_envs_response:
  assumes "dict_get cmd_data ''cmd'' (JStr '''') = JStr ''list_envs''"
  shows "\<exists>envs. handle_command B self (JDict cmd_data)
             = Inr (JDict [(''status'', JStr ''ok''), (''envs'', JDict envs)], self, [])
           \<and> distinct (map fst envs)
           \<and> fst ` set envs = fst ` set (ENVIRONMENTS B)
           \<and> (\<forall>name \<in> fst ` set (ENVIRONMENTS B).
                 \<exists>d. map_of envs name = Some (JDict [(''difficulty'', JInt d)]))
           \<and> (distinct (map fst (ENVIRONMENTS B)) \<longrightarrow>
                 envs = map (\<lambda>(name, env_class). (name, difficulty_entry B env_class))
                            (ENVIRONMENTS B))"
proof -
  let ?envs = "envs_loop B [] (ENVIRONMENTS B)"
  have h: "handle_command B self (JDict cmd_data)
             = Inr (JDict [(''status'', JStr ''ok''), (''envs'', JDict ?envs)], self, [])"
    using assms by simp
  have d: "distinct (map fst ?envs)" by (rule envs_loop_distinct) simp
  have k: "fst ` set ?envs = fst ` set (ENVIRONMENTS B)" by (simp add: envs_loop_keys)
  have v: "\<exists>d. map_of ?envs name = Some (JDict [(''difficulty'', JInt d)])"
    if "name \<in> fst ` set (ENVIRONMENTS B)" for name
  proof -
    from that k have "name \<in> fst ` set ?envs" by simp
    then obtain v where "map_of ?envs name = Some v"
      by (metis domD dom_map_of_conv_image_fst)
    moreover from this have "\<exists>d. v = JDict [(''difficulty'', JInt d)]"
      by (rule envs_loop_values[rotated]) simp
    ultimately show ?thesis by blast
  qed
  have o: "distinct (map fst (ENVIRONMENTS B)) \<Longrightarrow>
             ?envs = map (\<lambda>(name, env_class). (name, difficulty_entry B env_class))
                         (ENVIRONMENTS B)"
    using envs_loop_distinct_registry[of "ENVIRONMENTS B" "[]" B] by simp
  show ?thesis using h d k v o by blast
qed

theorem list_envs_response_witness:
  "dict_get [(''cmd'', JStr ''list_envs'')] ''cmd'' (JStr '''') = JStr ''list_envs''
   \<and> handle_command counter_engine init (JDict [(''cmd'', JStr ''list_envs'')])
       = Inr (JDict [(''status'', JStr ''ok''),
                     (''envs'', JDict [(''simple'', JDict [(''difficulty'', JInt 1)])])], init, [])
   \<and> ''simple'' \<in> fst ` set (ENVIRONMENTS counter_engine)
   \<and> distinct (map fst (ENVIRONMENTS counter_engine))"
proof -
  have h: "dict_get [(''cmd'', JStr ''list_envs'')] ''cmd'' (JStr '''') = JStr ''list_envs''"
    by (simp add: dict_get_def)
  from list_envs_response[OF h, of counter_engine init]
  obtain envs where "handle_command counter_engine init (JDict [(''cmd'', JStr ''list_envs'')])
             = Inr (JDict [(''status'', JStr ''ok''), (''envs'', JDict envs)], init, [])"
    by blast
  then show ?thesis using h by (simp add: run_defs)
qed

text \<open>
  Claim C8. Whenever \<^verbatim>\<open>handle_command\<close> returns a response with status \<^verbatim>\<open>error\<close>,
  the harness is unchanged (\<^verbatim>\<open>self.env\<close> and \<^verbatim>\<open>self.env_name\<close> keep their values)
  and no method of the engine, \<^verbatim>\<open>step\<close> included, has been called.
\<close>

theorem error_leaves_harness_alone:
  assumes "handle_command B self cmd_data = Inr (response, self', calls)"
    and "is_error response"
  shows "self' = self \<and> calls = []"
  using assms
  by (cases cmd_data) (auto simp: Let_def is_error_def field_def split: if_splits option.splits prod.splits)

theorem error_leaves_harness_alone_witness:
  "handle_command counter_engine init (JDict [(''cmd'', JStr ''step'')])
     = Inr (JDict [(''status'', JStr ''error''),
                   (''message'', JStr ''No environment loaded. Use 'reset' first.'')], init, [])
   \<and> is_error (JDict [(''status'', JStr ''error''),
                   (''message'', JStr ''No environment loaded. Use 'reset' first.'')])"
proof -
  let ?R = "JDict [(''status'', JStr ''error''),
                   (''message'', JStr ''No environment loaded. Use 'reset' first.'')]"
  have h: "handle_command counter_engine init (JDict [(''cmd'', JStr ''step'')]) = Inr (?R, init, [])"
    by (simp add: run_defs)
  have e: "is_error ?R" by (simp add: run_defs)
  from error_leaves_harness_alone[OF h e] h e show ?thesis by simp
qed

text \<open>
  Claim C4. A \<^verbatim>\<open>reset\<close> command that names a registered environment is answered with
  status \<^verbatim>\<open>ok\<close>, the name and the observation serialised from the freshly created
  and reset environment, which becomes the loaded one; a \<^verbatim>\<open>reset\<close> command that names
  an unregistered environment is answered with status \<^verbatim>\<open>error\<close> and a message, and
  nothing is loaded.
\<close>

theorem reset_named:
  assumes "dict_get cmd_data ''cmd'' (JStr '''') = JStr ''reset''"
    and "map_of cmd_data ''env'' = Some (JStr name)"
  shows "(name \<in> fst ` set (ENVIRONMENTS B) \<longrightarrow>
            (let e = env_reset B (create_environment B (JStr name)) in
             handle_command B self (JDict cmd_data)
               = Inr (JDict [(''status'', JStr ''ok''),
                             (''env'', JStr name),
                             (''observation'', fst (env_to_dict B e))],
                      \<lparr>env = Some (snd (env_to_dict B e)), env_name = JStr name\<rparr>,
                      [Create (JStr name), Reset, ToDict])))
       \<and> (name \<notin> fst ` set (ENVIRONMENTS B) \<longrightarrow>
            handle_command B self (JDict cmd_data)
               = Inr (JDict [(''status'', JStr ''error''),
                             (''message'', JStr (''Unknown environment: '' @ name @
                                ''. Use 'list_envs' to see available environments.''))],
                      self, []))"
  using assms
  by (auto simp: Let_def dict_get_present py_str_def image_iff split: prod.splits)

theorem reset_named_witness:
  "dict_get [(''cmd'', JStr ''reset''), (''env'', JStr ''simple'')] ''cmd'' (JStr '''') = JStr ''reset''
   \<and> map_of [(''cmd'', JStr ''reset''), (''env'', JStr ''simple'')] ''env'' = Some (JStr ''simple'')
   \<and> ''simple'' \<in> fst ` set (ENVIRONMENTS counter_engine)
   \<and> handle_command counter_engine init (JDict [(''cmd'', JStr ''reset''), (''env'', JStr ''simple'')])
       = Inr (JDict [(''status'', JStr ''ok''),
                     (''env'', JStr ''simple''),
                     (''observation'', counter_observation 0)],
              \<lparr>env = Some 0, env_name = JStr ''simple''\<rparr>,
              [Create (JStr ''simple''), Reset, ToDict])
   \<and> dict_get [(''cmd'', JStr ''reset''), (''env'', JStr ''maze'')] ''cmd'' (JStr '''') = JStr ''reset''
   \<and> map_of [(''cmd'', JStr ''reset''), (''env'', JStr ''maze'')] ''env'' = Some (JStr ''maze'')
   \<and> ''maze'' \<notin> fst ` set (ENVIRONMENTS counter_engine)
   \<and> handle_command counter_engine init (JDict [(''cmd'', JStr ''reset''), (''env'', JStr ''maze'')])
       = Inr (JDict [(''status'', JStr ''error''),
                     (''message'', JStr ''Unknown environment: maze. Use 'list_envs' to see available environments.'')],
              init, [])"
proof -
  let ?good = "[(''cmd'', JStr ''reset''), (''env'', JStr ''simple'')]"
  let ?bad = "[(''cmd'', JStr ''reset''), (''env'', JStr ''maze'')]"
  have g1: "dict_get ?good ''cmd'' (JStr '''') = JStr ''reset''" by (simp add: dict_get_def)
  have g2: "map_of ?good ''env'' = Some (JStr ''simple'')" by simp
  have g3: "''simple'' \<in> fst ` set (ENVIRONMENTS counter_engine)" by (simp add: counter_engine_def)
  have b1: "dict_get ?bad ''cmd'' (JStr '''') = JStr ''reset''" by (simp add: dict_get_def)
  have b2: "map_of ?bad ''env'' = Some (JStr ''maze'')" by simp
  have b3: "''maze'' \<notin> fst ` set (ENVIRONMENTS counter_engine)" by (simp add: counter_engine_def)
  from reset_named[OF g1 g2, of counter_engine init] g3
  have g: "handle_command counter_engine init (JDict ?good)
       = Inr (JDict [(''status'', JStr ''ok''),
                     (''env'', JStr ''simple''),
                     (''observation'', counter_observation 0)],
              \<lparr>env = Some 0, env_name = JStr ''simple''\<rparr>,
              [Create (JStr ''simple''), Reset, ToDict])"
    by (simp add: counter_engine_def Let_def del: handle_command.simps)
  from reset_named[OF b1 b2, of counter_engine init] b3
  have b: "handle_command counter_engine init (JDict ?bad)
       = Inr (JDict [(''status'', JStr ''error''),
                     (''message'', JStr ''Unknown environment: maze. Use 'list_envs' to see available environments.'')],
              init, [])"
    by (simp del: handle_command.simps)
  show ?thesis using g1 g2 g3 g b1 b2 b3 b by (intro conjI)
qed

text \<open>
  Claim C9. A \<^verbatim>\<open>reset\<close> command without the key \<^verbatim>\<open>env\<close> is handled exactly as the
  same command with \<^verbatim>\<open>"env": "simple"\<close> added; when \<open>simple\<close> is registered, that
  environment is created, reset and loaded, and the answer has status \<^verbatim>\<open>ok\<close>.
\<close>

theorem reset_default:
  assumes "dict_get cmd_data ''cmd'' (JStr '''') = JStr ''reset''"
    and "map_of cmd_data ''env'' = None"
  shows "handle_command B self (JDict cmd_data)
           = handle_command B self (JDict (cmd_data @ [(''env'', JStr ''simple'')]))
       \<and> (''simple'' \<in> fst ` set (ENVIRONMENTS B) \<longrightarrow>
            (let e = env_reset B (create_environment B (JStr ''simple'')) in
             handle_command B self (JDict cmd_data)
               = Inr (JDict [(''status'', JStr ''ok''),
                             (''env'', JStr ''simple''),
                             (''observation'', fst (env_to_dict B e))],
                      \<lparr>env = Some (snd (env_to_dict B e)), env_name = JStr ''simple''\<rparr>,
                      [Create (JStr ''simple''), Reset, ToDict])))"
proof -
  have c: "dict_get (cmd_data @ [(''env'', JStr ''simple'')]) ''cmd'' (JStr '''') = JStr ''reset''"
    using assms(1) by (simp add: dict_get_append_other)
  have e: "dict_get (cmd_data @ [(''env'', JStr ''simple'')]) ''env'' (JStr ''simple'') = JStr ''simple''"
    using assms(2) by (simp add: dict_get_append_absent)
  have e': "dict_get cmd_data ''env'' (JStr ''simple'') = JStr ''simple''"
    using assms(2) by (simp add: dict_get_absent)
  have same: "handle_command B self (JDict cmd_data)
           = handle_command B self (JDict (cmd_data @ [(''env'', JStr ''simple'')]))"
    unfolding handle_command.simps Let_def c e e' assms(1) by simp
  have loads: "''simple'' \<in> fst ` set (ENVIRONMENTS B) \<Longrightarrow>
            (let e = env_reset B (create_environment B (JStr ''simple'')) in
             handle_command B self (JDict cmd_data)
               = Inr (JDict [(''status'', JStr ''ok''),
                             (''env'', JStr ''simple''),
                             (''observation'', fst (env_to_dict B e))],
                      \<lparr>env = Some (snd (env_to_dict B e)), env_name = JStr ''simple''\<rparr>,
                      [Create (JStr ''simple''), Reset, ToDict]))"
    using assms(1) e' by (auto simp: Let_def image_iff split: prod.splits)
  show ?thesis using same loads by simp
qed

theorem reset_default_witness:
  "dict_get [(''cmd'', JStr ''reset'')] ''cmd'' (JStr '''') = JStr ''reset''
   \<and> map_of [(''cmd'', JStr ''reset'')] ''env'' = None
   \<and> ''simple'' \<in> fst ` set (ENVIRONMENTS counter_engine)
   \<and> handle_command counter_engine init (JDict [(''cmd'', JStr ''reset'')])
       = handle_command counter_engine init (JDict [(''cmd'', JStr ''reset''), (''env'', JStr ''simple'')])
   \<and> handle_command counter_engine init (JDict [(''cmd'', JStr ''reset'')])
       = Inr (JDict [(''status'', JStr ''ok''),
                     (''env'', JStr ''simple''),
                     (''observation'', counter_observation 0)],
              \<lparr>env = Some 0, env_name = JStr ''simple''\<rparr>,
              [Create (JStr ''simple''), Reset, ToDict])"
proof -
  let ?c = "[(''cmd'', JStr ''reset'')]"
  have h1: "dict_get ?c ''cmd'' (JStr '''') = JStr ''reset''" by (simp add: dict_get_def)
  have h2: "map_of ?c ''env'' = None" by simp
  have h3: "''simple'' \<in> fst ` set (ENVIRONMENTS counter_engine)" by (simp add: counter_engine_def)
  note t = reset_default[OF h1 h2, of counter_engine init]
  note same = t[THEN conjunct1, unfolded append_Cons append_Nil]
  from t[THEN conjunct2, THEN mp, OF h3]
  have r: "handle_command counter_engine init (JDict ?c)
       = Inr (JDict [(''status'', JStr ''ok''),
                     (''env'', JStr ''simple''),
                     (''observation'', counter_observation 0)],
              \<lparr>env = Some 0, env_name = JStr ''simple''\<rparr>,
              [Create (JStr ''simple''), Reset, ToDict])"
    by (simp add: counter_engine_def Let_def del: handle_command.simps)
  show ?thesis using h1 h2 h3 same r by (intro conjI)
qed

section \<open>Sessions: when an environment is loaded\<close>

lemma handle_command_env:
  assumes "handle_command B self cmd_data = Inr (response, self', calls)"
  shows "env self' = None \<longleftrightarrow> env self = None \<and> \<not> reset_succeeded (cmd_data, response)"
proof (cases cmd_data)
  case (JDict d)
  show ?thesis
  proof (cases "dict_get d ''cmd'' (JStr '''') = JStr ''reset''")
    case True
    then have f: "map_of d ''cmd'' = Some (JStr ''reset'')"
      by (auto simp: dict_get_def split: option.splits)
    show ?thesis using assms True f unfolding JDict
      by (auto simp: Let_def reset_succeeded_def is_ok_def field_def
          split: if_splits prod.splits)
  next
    case False
    then have f: "field cmd_data ''cmd'' \<noteq> Some (JStr ''reset'')"
      using JDict by (auto simp: field_def dict_get_def split: option.splits)
    then have nr: "\<not> reset_succeeded (cmd_data, response)"
      by (simp add: reset_succeeded_def)
    have "env self' = None \<longleftrightarrow> env self = None" using assms False unfolding JDict
      by (auto simp: Let_def split: if_splits option.splits prod.splits)
    then show ?thesis using nr by simp
  qed
qed (use assms in simp_all)

lemma handle_all_env:
  assumes "handle_all B self history = Inr (responses, self')"
  shows "length responses = length history \<and>
         (env self' = None \<longleftrightarrow>
            env self = None \<and> \<not> (\<exists>cr \<in> set (zip history responses). reset_succeeded cr))"
  using assms
proof (induction history arbitrary: self responses)
  case Nil
  then show ?case by simp
next
  case (Cons cmd_data rest)
  from Cons.prems obtain response self1 calls responses1 where
    h: "handle_command B self cmd_data = Inr (response, self1, calls)" and
    r: "handle_all B self1 rest = Inr (responses1, self')" and
    rs: "responses = response # responses1"
    by (auto split: sum.splits prod.splits)
  from Cons.IH[OF r] handle_command_env[OF h] rs show ?case by auto
qed

lemma step_unloaded:
  assumes "dict_get cmd_data ''cmd'' (JStr '''') = JStr ''step''" and "env self = None"
  shows "handle_command B self (JDict cmd_data) =
           Inr (JDict [(''status'', JStr ''error''),
                       (''message'', JStr ''No environment loaded. Use 'reset' first.'')], self, [])"
  using assms by simp

lemma step_invalid:
  assumes "dict_get cmd_data ''cmd'' (JStr '''') = JStr ''step''" and "env self = Some e"
    and "dict_get cmd_data ''action'' (JStr ''wait'') \<notin> JStr ` set valid_actions"
  shows "handle_command B self (JDict cmd_data) =
           Inr (JDict [(''status'', JStr ''error''),
                       (''message'', JStr (''Invalid action: '' @
                          py_str (dict_get cmd_data ''action'' (JStr ''wait'')) @
                          ''. Valid actions: '' @ py_str (JList (map JStr valid_actions))))],
                self, [])"
  using assms by (simp add: Let_def)

lemma step_valid:
  assumes "dict_get cmd_data ''cmd'' (JStr '''') = JStr ''step''" and "env self = Some e"
    and "dict_get cmd_data ''action'' (JStr ''wait'') \<in> JStr ` set valid_actions"
    and "env_step B e (dict_get cmd_data ''action'' (JStr ''wait'')) = ((obs, reward, dn, info), e1)"
    and "env_to_dict B e1 = (observation, e2)"
  shows "handle_command B self (JDict cmd_data) =
              Inr (JDict [(''status'', JStr ''ok''),
                          (''observation'', observation),
                          (''reward'', reward),
                          (''done'', dn),
                          (''info'', info)],
                   self\<lparr>env := Some e2\<rparr>,
                   [Step (dict_get cmd_data ''action'' (JStr ''wait'')), ToDict])"
  using assms by (simp add: Let_def)

lemma action_supplied_invalid:
  "(\<exists>action. map_of cmd_data ''action'' = Some action \<and> action \<notin> JStr ` set valid_actions)
     \<longleftrightarrow> dict_get cmd_data ''action'' (JStr ''wait'') \<notin> JStr ` set valid_actions"
  by (cases "map_of cmd_data ''action''") (simp_all add: dict_get_def valid_actions_def)

lemma step_without_action:
  assumes "dict_get cmd_data ''cmd'' (JStr '''') = JStr ''step''"
    and "map_of cmd_data ''action'' = None"
    and "env self = Some e"
  shows "handle_command B self (JDict cmd_data)
           = handle_command B self (JDict (cmd_data @ [(''action'', JStr ''wait'')]))
       \<and> (let ((obs, reward, done, info), e1) = env_step B e (JStr ''wait'') in
          handle_command B self (JDict cmd_data)
            = Inr (JDict [(''status'', JStr ''ok''),
                          (''observation'', fst (env_to_dict B e1)),
                          (''reward'', reward),
                          (''done'', done),
                          (''info'', info)],
                   self\<lparr>env := Some (snd (env_to_dict B e1))\<rparr>,
                   [Step (JStr ''wait''), ToDict]))"
proof -
  have c: "dict_get (cmd_data @ [(''action'', JStr ''wait'')]) ''cmd'' (JStr '''') = JStr ''step''"
    using assms(1) by (simp add: dict_get_append_other)
  have a: "dict_get (cmd_data @ [(''action'', JStr ''wait'')]) ''action'' (JStr ''wait'') = JStr ''wait''"
    using assms(2) by (simp add: dict_get_append_absent)
  have a': "dict_get cmd_data ''action'' (JStr ''wait'') = JStr ''wait''"
    using assms(2) by (simp add: dict_get_absent)
  have same: "handle_command B self (JDict cmd_data)
           = handle_command B self (JDict (cmd_data @ [(''action'', JStr ''wait'')]))"
    unfolding handle_command.simps Let_def c a a' assms(1) by simp
  have steps: "(let ((obs, reward, done, info), e1) = env_step B e (JStr ''wait'') in
          handle_command B self (JDict cmd_data)
            = Inr (JDict [(''status'', JStr ''ok''),
                          (''observation'', fst (env_to_dict B e1)),
                          (''reward'', reward),
                          (''done'', done),
                          (''info'', info)],
                   self\<lparr>env := Some (snd (env_to_dict B e1))\<rparr>,
                   [Step (JStr ''wait''), ToDict]))"
    using assms(1,3) a' by (auto simp: Let_def valid_actions_def split: prod.splits)
  show ?thesis using same steps by simp
qed

lemma session_after_reset:
  "handle_all counter_engine init [JDict [(''cmd'', JStr ''reset'')]]
     = Inr ([JDict [(''status'', JStr ''ok''), (''env'', JStr ''simple''),
                    (''observation'', counter_observation 0)]],
            \<lparr>env = Some 0, env_name = JStr ''simple''\<rparr>)"
  by (simp add: dict_get_def counter_engine_def init_def Let_def)

lemma session_reset_succeeded:
  "\<exists>cr \<in> set (zip [JDict [(''cmd'', JStr ''reset'')]]
                  [JDict [(''status'', JStr ''ok''), (''env'', JStr ''simple''),
                          (''observation'', counter_observation 0)]]). reset_succeeded cr"
  by (simp add: reset_succeeded_def field_def is_ok_def)

text \<open>
  Claim C2. Take a harness that has handled any sequence of commands since it was
  created. A \<^verbatim>\<open>step\<close> command is then answered, and the answer has status \<^verbatim>\<open>error\<close>
  if and only if no \<^verbatim>\<open>reset\<close> command of that sequence was answered with \<^verbatim>\<open>ok\<close>, or
  the command supplies an action that is not one of \<^verbatim>\<open>up\<close>, \<^verbatim>\<open>down\<close>, \<^verbatim>\<open>left\<close>,
  \<^verbatim>\<open>right\<close>, \<^verbatim>\<open>wait\<close>. Otherwise the environment is stepped with the action and the
  answer is status \<^verbatim>\<open>ok\<close> with the fields \<^verbatim>\<open>observation\<close>, \<^verbatim>\<open>reward\<close>, \<^verbatim>\<open>done\<close> and
  \<^verbatim>\<open>info\<close>.
\<close>

theorem step_command:
  assumes "handle_all B init history = Inr (responses, self)"
    and "dict_get cmd_data ''cmd'' (JStr '''') = JStr ''step''"
  shows "\<exists>response self' calls.
      handle_command B self (JDict cmd_data) = Inr (response, self', calls)
    \<and> (is_error response \<longleftrightarrow>
          \<not> (\<exists>cr \<in> set (zip history responses). reset_succeeded cr)
          \<or> (\<exists>action. map_of cmd_data ''action'' = Some action \<and> action \<notin> JStr ` set valid_actions))
    \<and> (\<not> is_error response \<longrightarrow>
          (\<exists>e obs reward done info e1 observation e2.
              env self = Some e
            \<and> env_step B e (dict_get cmd_data ''action'' (JStr ''wait'')) = ((obs, reward, done, info), e1)
            \<and> env_to_dict B e1 = (observation, e2)
            \<and> response = JDict [(''status'', JStr ''ok''),
                                 (''observation'', observation),
                                 (''reward'', reward),
                                 (''done'', done),
                                 (''info'', info)]
            \<and> self' = self\<lparr>env := Some e2\<rparr>
            \<and> calls = [Step (dict_get cmd_data ''action'' (JStr ''wait'')), ToDict]))"
proof -
  let ?action = "dict_get cmd_data ''action'' (JStr ''wait'')"
  let ?never = "\<not> (\<exists>cr \<in> set (zip history responses). reset_succeeded cr)"
  let ?bad = "\<exists>action. map_of cmd_data ''action'' = Some action \<and> action \<notin> JStr ` set valid_actions"
  have loaded: "env self = None \<longleftrightarrow> ?never"
    using handle_all_env[OF assms(1)] by (simp add: init_def)
  have bad: "?bad \<longleftrightarrow> ?action \<notin> JStr ` set valid_actions"
    by (rule action_supplied_invalid)
  have err: "is_error (JDict ((''status'', JStr ''error'') # rest))" for rest
    by (simp add: is_error_def field_def)
  have ok: "\<not> is_error (JDict ((''status'', JStr ''ok'') # rest))" for rest
    by (simp add: is_error_def field_def)
  show ?thesis
  proof (cases "env self")
    case None
    from None loaded have never: ?never by simp
    let ?R = "JDict [(''status'', JStr ''error''),
                     (''message'', JStr ''No environment loaded. Use 'reset' first.'')]"
    show ?thesis
    proof (rule exI[of _ ?R], rule exI[of _ self], rule exI[of _ "[]"], intro conjI)
      show "handle_command B self (JDict cmd_data) = Inr (?R, self, [])"
        by (rule step_unloaded[OF assms(2) None])
      show "is_error ?R \<longleftrightarrow> ?never \<or> ?bad" using never err by simp
      show "\<not> is_error ?R \<longrightarrow> (\<exists>e obs reward done info e1 observation e2.
              env self = Some e
            \<and> env_step B e ?action = ((obs, reward, done, info), e1)
            \<and> env_to_dict B e1 = (observation, e2)
            \<and> ?R = JDict [(''status'', JStr ''ok''),
                                 (''observation'', observation),
                                 (''reward'', reward),
                                 (''done'', done),
                                 (''info'', info)]
            \<and> self = self\<lparr>env := Some e2\<rparr>
            \<and> [] = [Step ?action, ToDict])"
        using err by simp
    qed
  next
    case (Some e)
    from Some loaded have once: "\<not> ?never" by simp
    show ?thesis
    proof (cases "?action \<in> JStr ` set valid_actions")
      case False
      with bad have b: ?bad by simp
      let ?R = "JDict [(''status'', JStr ''error''),
                       (''message'', JStr (''Invalid action: '' @ py_str ?action @
                          ''. Valid actions: '' @ py_str (JList (map JStr valid_actions))))]"
      show ?thesis
      proof (rule exI[of _ ?R], rule exI[of _ self], rule exI[of _ "[]"], intro conjI)
        show "handle_command B self (JDict cmd_data) = Inr (?R, self, [])"
          by (rule step_invalid[OF assms(2) Some False])
        show "is_error ?R \<longleftrightarrow> ?never \<or> ?bad" using b err by simp
        show "\<not> is_error ?R \<longrightarrow> (\<exists>e obs reward done info e1 observation e2.
              env self = Some e
            \<and> env_step B e ?action = ((obs, reward, done, info), e1)
            \<and> env_to_dict B e1 = (observation, e2)
            \<and> ?R = JDict [(''status'', JStr ''ok''),
                                 (''observation'', observation),
                                 (''reward'', reward),
                                 (''done'', done),
                                 (''info'', info)]
            \<and> self = self\<lparr>env := Some e2\<rparr>
            \<and> [] = [Step ?action, ToDict])"
          using err by simp
      qed
    next
      case True
      with bad have nb: "\<not> ?bad" by simp
      obtain r1 e1 where s0: "env_step B e ?action = (r1, e1)"
        by (cases "env_step B e ?action")
      obtain obs reward dn info where r1: "r1 = (obs, reward, dn, info)"
        by (cases r1)
      note s = s0[unfolded r1]
      obtain observation e2 where t: "env_to_dict B e1 = (observation, e2)"
        by (cases "env_to_dict B e1")
      let ?R = "JDict [(''status'', JStr ''ok''), (''observation'', observation),
                    (''reward'', reward), (''done'', dn), (''info'', info)]"
      show ?thesis
      proof (rule exI[of _ ?R], rule exI[of _ "self\<lparr>env := Some e2\<rparr>"],
             rule exI[of _ "[Step ?action, ToDict]"], intro conjI impI)
        show "handle_command B self (JDict cmd_data)
                = Inr (?R, self\<lparr>env := Some e2\<rparr>, [Step ?action, ToDict])"
          by (rule step_valid[OF assms(2) Some True s t])
        show "is_error ?R \<longleftrightarrow> ?never \<or> ?bad" using ok once nb by simp
        show "\<exists>e' obs' reward' done' info' e1' observation' e2'.
              env self = Some e'
            \<and> env_step B e' ?action = ((obs', reward', done', info'), e1')
            \<and> env_to_dict B e1' = (observation', e2')
            \<and> ?R = JDict [(''status'', JStr ''ok''),
                                 (''observation'', observation'),
                                 (''reward'', reward'),
                                 (''done'', done'),
                                 (''info'', info')]
            \<and> self\<lparr>env := Some e2\<rparr> = self\<lparr>env := Some e2'\<rparr>
            \<and> [Step ?action, ToDict] = [Step ?action, ToDict]"
          using Some s t by (intro exI conjI) (assumption | rule refl)+
      qed
    qed
  qed
qed

theorem step_command_witness:
  "handle_all counter_engine init [JDict [(''cmd'', JStr ''reset'')]]
     = Inr ([JDict [(''status'', JStr ''ok''), (''env'', JStr ''simple''),
                    (''observation'', counter_observation 0)]],
            \<lparr>env = Some 0, env_name = JStr ''simple''\<rparr>)
   \<and> dict_get [(''cmd'', JStr ''step''), (''action'', JStr ''right'')] ''cmd'' (JStr '''') = JStr ''step''
   \<and> reset_succeeded (JDict [(''cmd'', JStr ''reset'')],
                       JDict [(''status'', JStr ''ok''), (''env'', JStr ''simple''),
                              (''observation'', counter_observation 0)])
   \<and> map_of [(''cmd'', JStr ''step''), (''action'', JStr ''right'')] ''action'' = Some (JStr ''right'')
   \<and> JStr ''right'' \<in> JStr ` set valid_actions
   \<and> handle_command counter_engine \<lparr>env = Some 0, env_name = JStr ''simple''\<rparr>
         (JDict [(''cmd'', JStr ''step''), (''action'', JStr ''right'')])
       = Inr (JDict [(''status'', JStr ''ok''),
                     (''observation'', counter_observation 1),
                     (''reward'', JFloat ''0.0''),
                     (''done'', JBool False),
                     (''info'', JDict [])],
              \<lparr>env = Some 1, env_name = JStr ''simple''\<rparr>,
              [Step (JStr ''right''), ToDict])
   \<and> handle_all counter_engine init [] = Inr ([], init)
   \<and> handle_command counter_engine init (JDict [(''cmd'', JStr ''step''), (''action'', JStr ''right'')])
       = Inr (JDict [(''status'', JStr ''error''),
                     (''message'', JStr ''No environment loaded. Use 'reset' first.'')], init, [])"
proof -
  let ?s = "\<lparr>env = Some (0::nat), env_name = JStr ''simple''\<rparr>"
  let ?c = "[(''cmd'', JStr ''step''), (''action'', JStr ''right'')]"
  have h2: "dict_get ?c ''cmd'' (JStr '''') = JStr ''step''" by (simp add: dict_get_def)
  have a: "dict_get ?c ''action'' (JStr ''wait'') = JStr ''right''" by (simp add: dict_get_def)
  have rs: "reset_succeeded (JDict [(''cmd'', JStr ''reset'')],
                       JDict [(''status'', JStr ''ok''), (''env'', JStr ''simple''),
                              (''observation'', counter_observation 0)])"
    by (simp add: reset_succeeded_def field_def is_ok_def)
  have m: "map_of ?c ''action'' = Some (JStr ''right'')" by simp
  have v: "JStr ''right'' \<in> JStr ` set valid_actions" by (simp add: valid_actions_def)
  have e0: "handle_all counter_engine (init :: nat harness) [] = Inr ([], init)" by simp
  from step_command[OF session_after_reset h2]
  obtain response self' calls where
    h: "handle_command counter_engine ?s (JDict ?c) = Inr (response, self', calls)"
    and i: "is_error response \<longleftrightarrow>
          \<not> (\<exists>cr \<in> set (zip [JDict [(''cmd'', JStr ''reset'')]]
                  [JDict [(''status'', JStr ''ok''), (''env'', JStr ''simple''),
                          (''observation'', counter_observation 0)]]). reset_succeeded cr)
          \<or> (\<exists>action. map_of ?c ''action'' = Some action \<and> action \<notin> JStr ` set valid_actions)"
    and f: "\<not> is_error response \<longrightarrow>
          (\<exists>e obs reward done info e1 observation e2.
              env ?s = Some e
            \<and> env_step counter_engine e (dict_get ?c ''action'' (JStr ''wait'')) = ((obs, reward, done, info), e1)
            \<and> env_to_dict counter_engine e1 = (observation, e2)
            \<and> response = JDict [(''status'', JStr ''ok''),
                                 (''observation'', observation),
                                 (''reward'', reward),
                                 (''done'', done),
                                 (''info'', info)]
            \<and> self' = ?s\<lparr>env := Some e2\<rparr>
            \<and> calls = [Step (dict_get ?c ''action'' (JStr ''wait'')), ToDict])"
    by blast
  from i rs v have ne: "\<not> is_error response" by simp
  from f ne have ok: "handle_command counter_engine ?s (JDict ?c)
       = Inr (JDict [(''status'', JStr ''ok''),
                     (''observation'', counter_observation 1),
                     (''reward'', JFloat ''0.0''),
                     (''done'', JBool False),
                     (''info'', JDict [])],
              \<lparr>env = Some 1, env_name = JStr ''simple''\<rparr>,
              [Step (JStr ''right''), ToDict])"
    unfolding h a by (auto simp: counter_engine_def)
  have err: "handle_command counter_engine (init :: nat harness) (JDict ?c)
       = Inr (JDict [(''status'', JStr ''error''),
                     (''message'', JStr ''No environment loaded. Use 'reset' first.'')], init, [])"
    by (rule step_unloaded[OF h2]) (simp add: init_def)
  show ?thesis
    using session_after_reset h2 rs m v ok e0 err by (intro conjI)
qed

text \<open>
  Claim C10. After a successful reset, a \<^verbatim>\<open>step\<close> command without the key
  \<^verbatim>\<open>action\<close> is handled exactly as the same command with \<^verbatim>\<open>"action": "wait"\<close> added:
  the environment is stepped with \<^verbatim>\<open>wait\<close> and the answer has status \<^verbatim>\<open>ok\<close>.
\<close>

theorem step_default:
  assumes "handle_all B init history = Inr (responses, self)"
    and "\<exists>cr \<in> set (zip history responses). reset_succeeded cr"
    and "dict_get cmd_data ''cmd'' (JStr '''') = JStr ''step''"
    and "map_of cmd_data ''action'' = None"
  shows "\<exists>e. env self = Some e
       \<and> handle_command B self (JDict cmd_data)
           = handle_command B self (JDict (cmd_data @ [(''action'', JStr ''wait'')]))
       \<and> (let ((obs, reward, done, info), e1) = env_step B e (JStr ''wait'') in
          handle_command B self (JDict cmd_data)
            = Inr (JDict [(''status'', JStr ''ok''),
                          (''observation'', fst (env_to_dict B e1)),
                          (''reward'', reward),
                          (''done'', done),
                          (''info'', info)],
                   self\<lparr>env := Some (snd (env_to_dict B e1))\<rparr>,
                   [Step (JStr ''wait''), ToDict]))"
proof -
  from handle_all_env[OF assms(1)] assms(2) have "env self \<noteq> None" by blast
  then obtain e where e: "env self = Some e" by blast
  from step_without_action[OF assms(3,4) e, of B] e show ?thesis by blast
qed

theorem step_default_witness:
  "handle_all counter_engine init [JDict [(''cmd'', JStr ''reset'')]]
     = Inr ([JDict [(''status'', JStr ''ok''), (''env'', JStr ''simple''),
                    (''observation'', counter_observation 0)]],
            \<lparr>env = Some 0, env_name = JStr ''simple''\<rparr>)
   \<and> reset_succeeded (JDict [(''cmd'', JStr ''reset'')],
                       JDict [(''status'', JStr ''ok''), (''env'', JStr ''simple''),
                              (''observation'', counter_observation 0)])
   \<and> dict_get [(''cmd'', JStr ''step'')] ''cmd'' (JStr '''') = JStr ''step''
   \<and> map_of [(''cmd'', JStr ''step'')] ''action'' = None
   \<and> handle_command counter_engine \<lparr>env = Some 0, env_name = JStr ''simple''\<rparr>
         (JDict [(''cmd'', JStr ''step'')])
       = handle_command counter_engine \<lparr>env = Some 0, env_name = JStr ''simple''\<rparr>
         (JDict [(''cmd'', JStr ''step''), (''action'', JStr ''wait'')])
   \<and> handle_command counter_engine \<lparr>env = Some 0, env_name = JStr ''simple''\<rparr>
         (JDict [(''cmd'', JStr ''step'')])
       = Inr (JDict [(''status'', JStr ''ok''),
                     (''observation'', counter_observation 1),
                     (''reward'', JFloat ''0.0''),
                     (''done'', JBool False),
                     (''info'', JDict [])],
              \<lparr>env = Some 1, env_name = JStr ''simple''\<rparr>,
              [Step (JStr ''wait''), ToDict])"
proof -
  let ?s = "\<lparr>env = Some (0::nat), env_name = JStr ''simple''\<rparr>"
  have h3: "dict_get [(''cmd'', JStr ''step'')] ''cmd'' (JStr '''') = JStr ''step''"
    by (simp add: dict_get_def)
  have h4: "map_of [(''cmd'', JStr ''step'')] ''action'' = None" by simp
  have h2: "reset_succeeded (JDict [(''cmd'', JStr ''reset'')],
                       JDict [(''status'', JStr ''ok''), (''env'', JStr ''simple''),
                              (''observation'', counter_observation 0)])"
    by (simp add: reset_succeeded_def field_def is_ok_def)
  from step_default[OF session_after_reset session_reset_succeeded h3 h4]
  obtain e where e: "env ?s = Some e"
    and same: "handle_command counter_engine ?s (JDict [(''cmd'', JStr ''step'')])
           = handle_command counter_engine ?s (JDict ([(''cmd'', JStr ''step'')] @ [(''action'', JStr ''wait'')]))"
    and r: "(let ((obs, reward, done, info), e1) = env_step counter_engine e (JStr ''wait'') in
          handle_command counter_engine ?s (JDict [(''cmd'', JStr ''step'')])
            = Inr (JDict [(''status'', JStr ''ok''),
                          (''observation'', fst (env_to_dict counter_engine e1)),
                          (''reward'', reward),
                          (''done'', done),
                          (''info'', info)],
                   ?s\<lparr>env := Some (snd (env_to_dict counter_engine e1))\<rparr>,
                   [Step (JStr ''wait''), ToDict]))"
    by blast
  from e have e0: "e = 0" by simp
  from r have r': "handle_command counter_engine ?s (JDict [(''cmd'', JStr ''step'')])
       = Inr (JDict [(''status'', JStr ''ok''),
                     (''observation'', counter_observation 1),
                     (''reward'', JFloat ''0.0''),
                     (''done'', JBool False),
                     (''info'', JDict [])],
              \<lparr>env = Some 1, env_name = JStr ''simple''\<rparr>,
              [Step (JStr ''wait''), ToDict])"
    unfolding e0 by (simp add: counter_engine_def del: handle_command.simps)
  show ?thesis
    using session_after_reset h2 h3 h4 same[unfolded append_Cons append_Nil] r'
    by (intro conjI)
qed

section \<open>What \<^verbatim>\<open>run\<close> prints and how it ends\<close>

lemma run_blank:
  "strip line = [] \<Longrightarrow> run loads B self (line # stdin) = run loads B self stdin"
  by simp

lemma run_invalid:
  "strip line \<noteq> [] \<Longrightarrow> loads (strip line) = JSONDecodeError e \<Longrightarrow>
   run loads B self (line # stdin) =
     printed (JDict [(''status'', JStr ''error''), (''message'', JStr (''Invalid JSON: '' @ e))])
             (run loads B self stdin)"
  by (simp add: Let_def)


lemma run_raise:
  "strip line \<noteq> [] \<Longrightarrow> loads (strip line) = Loaded cmd_data \<Longrightarrow>
   handle_command B self cmd_data = Inl err \<Longrightarrow>
   run loads B self (line # stdin) = ([], self, Raised err)"
  by (simp add: Let_def del: handle_command.simps)

lemma run_quit:
  "strip line \<noteq> [] \<Longrightarrow> loads (strip line) = Loaded cmd_data \<Longrightarrow>
   handle_command B self cmd_data = Inr (response, self', calls) \<Longrightarrow> is_quit cmd_data \<Longrightarrow>
   run loads B self (line # stdin) = ([response], self', Quit)"
  by (simp add: Let_def del: handle_command.simps)

lemma run_answer:
  "strip line \<noteq> [] \<Longrightarrow> loads (strip line) = Loaded cmd_data \<Longrightarrow>
   handle_command B self cmd_data = Inr (response, self', calls) \<Longrightarrow> \<not> is_quit cmd_data \<Longrightarrow>
   run loads B self (line # stdin) = printed response (run loads B self' stdin)"
  by (simp add: Let_def del: handle_command.simps)

lemma printed_conv: "printed r x = (r # fst x, snd x)"
  by (cases x) simp


lemma handle_command_not_dict:
  "\<forall>d. cmd_data \<noteq> JDict d \<Longrightarrow> handle_command B self cmd_data = Inl AttributeError"
  by (cases cmd_data) simp_all

lemma strip_42: "strip ''42\<newline>'' = ''42''"
  by (simp add: strip_def py_isspace_def)

lemma strip_quit_line: "strip (quit_line @ ''\<newline>'') = quit_line"
  by (simp add: strip_def py_isspace_def quit_line_def)

lemma strip_step_line: "strip (step_line @ ''\<newline>'') = step_line"
  by (simp add: strip_def py_isspace_def step_line_def)

lemma strip_blank: "strip ''\<newline>'' = []"
  by (simp add: strip_def py_isspace_def)



text \<open>
  \<^verbatim>\<open>handle_command\<close> returns a response exactly for the answerable objects; on the
  others it raises. A \<^verbatim>\<open>reset\<close> command whose \<^verbatim>\<open>env\<close> is a list or an object makes
  the test \<^verbatim>\<open>env_name not in ENVIRONMENTS\<close> raise \<^verbatim>\<open>TypeError\<close>.
\<close>

lemma unhashable_env_raises:
  assumes "dict_get cmd_data ''cmd'' (JStr '''') = JStr ''reset''"
    and "\<not> hashable (dict_get cmd_data ''env'' (JStr ''simple''))"
  shows "handle_command B self (JDict cmd_data) = Inl TypeError"
  using assms by (simp add: Let_def)

lemma handle_command_answers_iff:
  "(\<exists>answer. handle_command B self cmd_data = Inr answer) \<longleftrightarrow> answerable cmd_data"
proof (cases cmd_data)
  case (JDict d)
  show ?thesis
  proof (cases "dict_get d ''cmd'' (JStr '''') = JStr ''reset''")
    case True
    then show ?thesis unfolding JDict
      by (auto simp: answerable_def Let_def split: prod.splits)
  next
    case False
    then show ?thesis unfolding JDict
      by (auto simp: answerable_def Let_def split: prod.splits option.splits)
  qed
qed (simp_all add: answerable_def)

text \<open>
  When on every line the decoder either returns an answerable object or raises
  \<^verbatim>\<open>JSONDecodeError\<close>, \<^verbatim>\<open>run\<close> ends at the end of the input or at a \<^verbatim>\<open>quit\<close>, never
  by an exception.
\<close>

lemma run_never_raises:
  assumes "\<forall>line \<in> set stdin.
             (\<forall>cmd_data. loads (strip line) = Loaded cmd_data \<longrightarrow> answerable cmd_data)
           \<and> (\<forall>err. loads (strip line) \<noteq> LoadsRaised err)"
  shows "snd (snd (run loads B self stdin)) \<in> {EndOfInput, Quit}"
  using assms
proof (induction stdin arbitrary: self)
  case Nil
  then show ?case by simp
next
  case (Cons line stdin)
  then have IH: "snd (snd (run loads B s stdin)) \<in> {EndOfInput, Quit}" for s by simp
  show ?case
  proof (cases "strip line = []")
    case True
    then show ?thesis using IH by (simp add: run_blank del: run.simps)
  next
    case False
    show ?thesis
    proof (cases "loads (strip line)")
      case (JSONDecodeError e)
      show ?thesis
        unfolding run_invalid[where loads=loads and line=line, OF False JSONDecodeError]
        using IH[of self] by (simp add: printed_conv)
    next
      case (LoadsRaised err)
      with Cons.prems show ?thesis by simp
    next
      case (Loaded cmd_data)
      with Cons.prems have "answerable cmd_data" by simp
      then obtain response self' calls where
        h: "handle_command B self cmd_data = Inr (response, self', calls)"
        using handle_command_answers_iff[of B self cmd_data] by (metis prod_cases3)
      show ?thesis
      proof (cases "is_quit cmd_data")
        case True
        show ?thesis
          unfolding run_quit[where loads=loads and line=line, OF False Loaded h True] by simp
      next
        case nq: False
        show ?thesis
          unfolding run_answer[where loads=loads and line=line, OF False Loaded h nq]
          using IH[of self'] by (simp add: printed_conv)
      qed
    qed
  qed
qed

text \<open>
  The line \<^verbatim>\<open>NaN\<close> is not JSON, but the decoder returns a float for it, so it is not
  answered with \<^verbatim>\<open>Invalid JSON\<close>: the float goes to \<^verbatim>\<open>handle_command\<close>, which raises.
\<close>

lemma nan_line_is_decoded:
  "run sample_loads counter_engine init [''NaN\<newline>''] = ([], init, Raised AttributeError)"
proof -
  have s: "strip ''NaN\<newline>'' = ''NaN''" by (simp add: strip_def py_isspace_def)
  have n: "strip ''NaN\<newline>'' \<noteq> []" by (simp add: s)
  have l: "sample_loads (strip ''NaN\<newline>'') = Loaded (JFloat ''nan'')"
    by (simp add: s sample_loads_def table_loads_def)
  have h: "handle_command counter_engine init (JFloat ''nan'') = Inl AttributeError" by simp
  show ?thesis
    by (rule run_raise[where loads=sample_loads and cmd_data="JFloat ''nan''", OF n l h])
qed

text \<open>
  Claim C1 says that no exception leaves \<^verbatim>\<open>run\<close>. A line that is valid JSON but not
  an object (a number, a string, a list, \<^verbatim>\<open>null\<close>) is decoded without error and handed
  to \<^verbatim>\<open>handle_command\<close>, whose first statement calls \<^verbatim>\<open>cmd_data.get\<close>: the
  \<^verbatim>\<open>AttributeError\<close> leaves \<^verbatim>\<open>run\<close>, nothing is printed for the line and the lines after
  it are never read.
\<close>

theorem non_object_line_raises:
  assumes "strip line \<noteq> []" and "loads (strip line) = Loaded cmd_data"
    and "\<forall>d. cmd_data \<noteq> JDict d"
  shows "run loads B self (line # stdin) = ([], self, Raised AttributeError)"
  using run_raise[where loads=loads and line=line, OF assms(1,2) handle_command_not_dict[OF assms(3)]] .

theorem non_object_line_raises_witness:
  "strip ''42\<newline>'' \<noteq> []
   \<and> sample_loads (strip ''42\<newline>'') = Loaded (JInt 42)
   \<and> (\<forall>d. JInt 42 \<noteq> JDict d)
   \<and> run sample_loads counter_engine init [''42\<newline>'', quit_line @ ''\<newline>'']
        = ([], init, Raised AttributeError)"
proof -
  have h1: "strip ''42\<newline>'' \<noteq> []" by (simp add: strip_42)
  have h2: "sample_loads (strip ''42\<newline>'') = Loaded (JInt 42)"
    by (simp add: strip_42 sample_loads_def table_loads_def)
  have h3: "\<forall>d. JInt 42 \<noteq> JDict d" by simp
  from non_object_line_raises[where loads=sample_loads and line="''42\<newline>''", OF h1 h2 h3] h1 h2 h3 show ?thesis by blast
qed

text \<open>
  Claim C3 says that every line that is not valid JSON is answered with an error. A
  blank line is not valid JSON (\<^verbatim>\<open>json.loads\<close> raises \<^verbatim>\<open>JSONDecodeError\<close> on the empty
  text), yet \<^verbatim>\<open>run\<close> skips it before decoding, by the guard \<^verbatim>\<open>if not line: continue\<close>,
  and prints nothing.
\<close>

theorem blank_line_not_answered:
  "sample_loads (strip ''\<newline>'') = JSONDecodeError ''Expecting value: line 1 column 1 (char 0)''
   \<and> run sample_loads counter_engine init [''\<newline>''] = ([], init, EndOfInput)"
  by (simp add: strip_blank sample_loads_def table_loads_def quit_line_def step_line_def)

text \<open>
  Claim C3, amended. A line that is not blank once stripped and on whose stripped text
  \<^verbatim>\<open>json.loads\<close> raises \<^verbatim>\<open>JSONDecodeError\<close> is answered with status \<^verbatim>\<open>error\<close> and the
  message \<^verbatim>\<open>Invalid JSON: \<close> followed by the text of the exception; the harness is
  unchanged and the loop goes on with the next line. Nothing is said of the lines on
  which the decoder raises another exception (they end the loop, by
  \<open>run_loads_raised\<close>) or which it decodes although they are not JSON.
\<close>

theorem invalid_json_line:
  assumes "strip line \<noteq> []" and "loads (strip line) = JSONDecodeError e"
  shows "run loads B self (line # stdin) =
     printed (JDict [(''status'', JStr ''error''), (''message'', JStr (''Invalid JSON: '' @ e))])
             (run loads B self stdin)"
  using assms by (rule run_invalid)

theorem invalid_json_line_witness:
  "strip ''{x\<newline>'' \<noteq> []
   \<and> sample_loads (strip ''{x\<newline>'') = JSONDecodeError ''Expecting value: line 1 column 1 (char 0)''
   \<and> run sample_loads counter_engine init [''{x\<newline>'', quit_line @ ''\<newline>'']
     = ([JDict [(''status'', JStr ''error''),
                (''message'', JStr ''Invalid JSON: Expecting value: line 1 column 1 (char 0)'')],
         JDict [(''status'', JStr ''ok''), (''message'', JStr ''goodbye'')]],
        init, Quit)"
proof -
  have bad: "strip ''{x\<newline>'' = ''{x''" by (simp add: strip_def py_isspace_def)
  have h1: "strip ''{x\<newline>'' \<noteq> []" by (simp add: bad)
  have h2: "sample_loads (strip ''{x\<newline>'') = JSONDecodeError ''Expecting value: line 1 column 1 (char 0)''"
    by (simp add: bad sample_loads_def table_loads_def quit_line_def step_line_def)
  have rest: "run sample_loads counter_engine init [quit_line @ ''\<newline>'']
       = ([JDict [(''status'', JStr ''ok''), (''message'', JStr ''goodbye'')]], init, Quit)"
  proof (rule run_quit[where loads=sample_loads and cmd_data="JDict [(''cmd'', JStr ''quit'')]"])
    show "strip (quit_line @ ''\<newline>'') \<noteq> []"
      by (simp add: strip_quit_line) (simp add: quit_line_def)
    show "sample_loads (strip (quit_line @ ''\<newline>'')) = Loaded (JDict [(''cmd'', JStr ''quit'')])"
      by (simp add: strip_quit_line) (simp add: sample_loads_def table_loads_def quit_line_def)
    show "handle_command counter_engine init (JDict [(''cmd'', JStr ''quit'')])
            = Inr (JDict [(''status'', JStr ''ok''), (''message'', JStr ''goodbye'')], init, [])"
      by (simp add: dict_get_def)
    show "is_quit (JDict [(''cmd'', JStr ''quit'')])"
      by (simp add: is_quit_def dict_get_def)
  qed
  from invalid_json_line[where loads=sample_loads and line="''{x\<newline>''", OF h1 h2,
         of counter_engine init "[quit_line @ ''\<newline>'']"]
  have c: "run sample_loads counter_engine init [''{x\<newline>'', quit_line @ ''\<newline>'']
     = ([JDict [(''status'', JStr ''error''),
                (''message'', JStr ''Invalid JSON: Expecting value: line 1 column 1 (char 0)'')],
         JDict [(''status'', JStr ''ok''), (''message'', JStr ''goodbye'')]],
        init, Quit)"
    unfolding rest by (simp del: run.simps)
  show ?thesis using h1 h2 c by (intro conjI)
qed



section \<open>Copies of a Grid\<close>

lemma Grid_step_length: "length (Grid_step resolve mem self action) = length mem"
  by (simp add: Grid_step_def)

lemma Grid_step_other:
  "other \<noteq> self \<Longrightarrow> Grid_step resolve mem self action ! other = mem ! other"
  by (simp add: Grid_step_def)

lemma Grid_step_self:
  "self < length mem \<Longrightarrow>
   steps (Grid_step resolve mem self action ! self) = steps (mem ! self) + 1"
  by (simp add: Grid_step_def step_grid_def)

lemma Grid_steps_length: "length (Grid_steps resolve mem self actions) = length mem"
  by (induction actions arbitrary: mem) (simp_all add: Grid_step_length)

lemma Grid_steps_other:
  "other \<noteq> self \<Longrightarrow> Grid_steps resolve mem self actions ! other = mem ! other"
  by (induction actions arbitrary: mem) (simp_all add: Grid_step_other)

lemma Grid_steps_self:
  "self < length mem \<Longrightarrow>
   steps (Grid_steps resolve mem self actions ! self) = steps (mem ! self) + length actions"
  by (induction actions arbitrary: mem) (simp_all add: Grid_step_length Grid_step_self)

text \<open>
  Claim C5. \<^verbatim>\<open>copy()\<close> returns a Grid other than the source, with the same
  dimensions, the same multiset of object names in every cell and the same
  \<^verbatim>\<open>steps\<close>, \<^verbatim>\<open>won\<close> and \<^verbatim>\<open>lost\<close>, and leaves the source as it was. Stepping the copy
  any number of times afterwards leaves the \<^verbatim>\<open>steps\<close> of the source unchanged while
  the copy counts every step; stepping the source leaves the copy unchanged.
\<close>

theorem copy_is_independent:
  assumes "self < length mem"
    and "Grid_copy mem self = (mem', copy)"
  shows "copy \<noteq> self \<and> copy < length mem' \<and> mem' ! self = mem ! self
       \<and> width (mem' ! copy) = width (mem ! self)
       \<and> height (mem' ! copy) = height (mem ! self)
       \<and> (\<forall>cy < height (mem ! self). \<forall>cx < width (mem ! self).
             cell_names (mem' ! copy) cx cy = cell_names (mem ! self) cx cy)
       \<and> steps (mem' ! copy) = steps (mem ! self)
       \<and> won (mem' ! copy) = won (mem ! self)
       \<and> lost (mem' ! copy) = lost (mem ! self)
       \<and> steps (Grid_steps resolve mem' copy actions ! self) = steps (mem ! self)
       \<and> steps (Grid_steps resolve mem' copy actions ! copy) = steps (mem ! self) + length actions
       \<and> Grid_steps resolve mem' self actions ! copy = mem ! self"
proof -
  from assms(2) have m: "mem' = mem @ [mem ! self]" and c: "copy = length mem"
    by (simp_all add: Grid_copy_def)
  have ne: "copy \<noteq> self" using assms(1) c by simp
  have lt: "copy < length mem'" using m c by simp
  have src: "mem' ! self = mem ! self" using assms(1) m by (simp add: nth_append)
  have cp: "mem' ! copy = mem ! self" using m c by simp
  have s1: "steps (Grid_steps resolve mem' copy actions ! self) = steps (mem ! self)"
    using Grid_steps_other[of self copy resolve mem' actions] ne src by simp
  have s2: "steps (Grid_steps resolve mem' copy actions ! copy) = steps (mem ! self) + length actions"
    using Grid_steps_self[OF lt, of resolve actions] cp by simp
  have s3: "Grid_steps resolve mem' self actions ! copy = mem ! self"
    using Grid_steps_other[of copy self resolve mem' actions] ne cp by simp
  show ?thesis using ne lt src cp s1 s2 s3 by simp
qed

theorem copy_is_independent_witness:
  "(0::nat) < length [tiny_grid]
   \<and> Grid_copy [tiny_grid] 0 = ([tiny_grid, tiny_grid], 1)
   \<and> cell_names ([tiny_grid, tiny_grid] ! 1) 0 0 = {#''baba''#}
   \<and> cell_names ([tiny_grid, tiny_grid] ! 1) 0 0 = cell_names ([tiny_grid] ! 0) 0 0
   \<and> steps (Grid_steps clear_cells [tiny_grid, tiny_grid] 1 [''left''] ! 0) = 2
   \<and> steps (Grid_steps clear_cells [tiny_grid, tiny_grid] 1 [''left''] ! 1) = 3
   \<and> cell_names (Grid_steps clear_cells [tiny_grid, tiny_grid] 1 [''left''] ! 1) 0 0 = {#}
   \<and> cell_names (Grid_steps clear_cells [tiny_grid, tiny_grid] 1 [''left''] ! 0) 0 0 = {#''baba''#}"
proof -
  have h1: "(0::nat) < length [tiny_grid]" by simp
  have h2: "Grid_copy [tiny_grid] 0 = ([tiny_grid, tiny_grid], 1)" by (simp add: Grid_copy_def)
  note t = copy_is_independent[OF h1 h2, of clear_cells "[''left'']"]
  have w: "(0::nat) < height ([tiny_grid] ! 0)" "(0::nat) < width ([tiny_grid] ! 0)"
    by (simp_all add: tiny_grid_def)
  from t w have c: "cell_names ([tiny_grid, tiny_grid] ! 1) 0 0 = cell_names ([tiny_grid] ! 0) 0 0"
    by blast
  have n: "cell_names ([tiny_grid, tiny_grid] ! 1) 0 0 = {#''baba''#}"
    by (simp add: cell_names_def tiny_grid_def)
  from t have s0: "steps (Grid_steps clear_cells [tiny_grid, tiny_grid] 1 [''left''] ! 0) = 2"
    by (simp add: tiny_grid_def)
  from t have s1: "steps (Grid_steps clear_cells [tiny_grid, tiny_grid] 1 [''left''] ! 1) = 3"
    by (simp add: tiny_grid_def)
  have e1: "cell_names (Grid_steps clear_cells [tiny_grid, tiny_grid] 1 [''left''] ! 1) 0 0 = {#}"
    by (simp add: Grid_step_def step_grid_def clear_cells_def cell_names_def tiny_grid_def)
  have e0: "cell_names (Grid_steps clear_cells [tiny_grid, tiny_grid] 1 [''left''] ! 0) 0 0 = {#''baba''#}"
    by (simp add: Grid_step_def step_grid_def clear_cells_def cell_names_def tiny_grid_def)
  show ?thesis using h1 h2 n c s0 s1 e1 e0 by (intro conjI)
qed

end
